theory Spec2Isabelle
  imports Complex_Main
begin

section \<open>JavaScript values\<close>

text \<open>
  The values handled by the trace code are the ones \<^verbatim>\<open>JSON.parse\<close> produces, plus the
  arrays and objects the code builds from them. Numbers are IEEE doubles in the program;
  the development never computes with them, so the number type is a parameter \<open>'n\<close>.
  \<^verbatim>\<open>undefined\<close> is the \<open>None\<close> of an \<open>option\<close>: a property read yields
  \<open>'n json option\<close>.

  An object is its list of own properties in creation order. Arrays are dense lists.
\<close>

datatype 'n json =
    JNull
  | JBool bool
  | JNum 'n
  | JStr string
  | JArr "'n json list"
  | JObj "(string \<times> 'n json) list"

text \<open>
  The only exception the modelled code can raise is the engine's \<^verbatim>\<open>TypeError\<close> (a property
  read on \<^verbatim>\<open>undefined\<close> or \<^verbatim>\<open>null\<close>, a call of something that is not a function, an
  object that cannot be converted to a primitive). \<open>MalformedDocument\<close> and
  \<open>MissingAggregationData\<close> are the error kinds the specification names; no function of
  the source raises them. \<open>Unmodelled\<close> is not an exception of the program: it marks the
  few inputs on which \<^verbatim>\<open>lodash.set\<close> leaves the values above (a hole or a named
  property on an array, a step into a function inherited from \<^verbatim>\<open>Object.prototype\<close>).
  No statement below draws a conclusion about the program from it.
\<close>

datatype error = TypeError | MalformedDocument | MissingAggregationData | Unmodelled

fun map_result :: "('a \<Rightarrow> error + 'b) \<Rightarrow> 'a list \<Rightarrow> error + 'b list" where
  "map_result f [] = Inr []"
| "map_result f (x # xs) =
     (case f x of
        Inl e \<Rightarrow> Inl e
      | Inr y \<Rightarrow> (case map_result f xs of Inl e \<Rightarrow> Inl e | Inr ys \<Rightarrow> Inr (y # ys)))"

subsection \<open>Property keys and their enumeration order\<close>

definition digit_val :: "char \<Rightarrow> nat option" where
  "digit_val c =
     map_of [(CHR ''0'', 0), (CHR ''1'', 1), (CHR ''2'', 2), (CHR ''3'', 3), (CHR ''4'', 4),
             (CHR ''5'', 5), (CHR ''6'', 6), (CHR ''7'', 7), (CHR ''8'', 8), (CHR ''9'', 9)] c"

fun digits_val :: "nat \<Rightarrow> string \<Rightarrow> nat option" where
  "digits_val acc [] = Some acc"
| "digits_val acc (c # cs) =
     (case digit_val c of None \<Rightarrow> None | Some d \<Rightarrow> digits_val (10 * acc + d) cs)"

text \<open>The regular expression \<^verbatim>\<open>/^(?:0|[1-9]\d*)$/\<close>, with the number it denotes.\<close>

definition uint_of :: "string \<Rightarrow> nat option" where
  "uint_of s =
     (case s of
        [] \<Rightarrow> None
      | c # cs \<Rightarrow>
          (if c = CHR ''0'' then (if cs = [] then Some 0 else None)
           else digits_val 0 s))"

text \<open>An array index of the language: a canonical numeric string below \<open>2^32 - 1\<close>.\<close>

definition array_index :: "string \<Rightarrow> nat option" where
  "array_index s =
     (case uint_of s of
        None \<Rightarrow> None
      | Some n \<Rightarrow> if n < 4294967295 then Some n else None)"

fun digit_char :: "nat \<Rightarrow> char" where
  "digit_char n = ''0123456789'' ! (n mod 10)"

fun dec :: "nat \<Rightarrow> string" where
  "dec n = (if n < 10 then [digit_char n] else dec (n div 10) @ [digit_char n])"

declare dec.simps [simp del]

text \<open>
  \<^verbatim>\<open>Object.keys\<close> of an ordinary object: the array indices in ascending numeric order,
  then the other keys in creation order. The argument is the creation-order key list.
\<close>

definition ordered_keys :: "string list \<Rightarrow> string list" where
  "ordered_keys ks =
     map snd (sort_key fst
        (List.map_filter (\<lambda>k. case array_index k of None \<Rightarrow> None | Some i \<Rightarrow> Some (i, k)) ks))
     @ filter (\<lambda>k. array_index k = None) ks"

text \<open>
  \<^verbatim>\<open>Object.keys(v)\<close> for a value that is neither \<^verbatim>\<open>undefined\<close> nor \<^verbatim>\<open>null\<close>,
  paired with \<^verbatim>\<open>v[key]\<close>: the own enumerable properties. A string has its indices,
  a number or a boolean has none.
\<close>

fun own_entries :: "'n json \<Rightarrow> (string \<times> 'n json) list" where
  "own_entries (JObj ps) =
     List.map_filter (\<lambda>k. case map_of ps k of None \<Rightarrow> None | Some v \<Rightarrow> Some (k, v))
       (ordered_keys (map fst ps))"
| "own_entries (JArr xs) = map (\<lambda>i. (dec i, xs ! i)) [0..<length xs]"
| "own_entries (JStr s) = map (\<lambda>i. (dec i, JStr [s ! i])) [0..<length s]"
| "own_entries _ = []"

text \<open>Assignment \<^verbatim>\<open>o[k] = v\<close> on an ordinary object: an existing property keeps its place.\<close>

fun obj_set :: "(string \<times> 'a) list \<Rightarrow> string \<Rightarrow> 'a \<Rightarrow> (string \<times> 'a) list" where
  "obj_set [] k v = [(k, v)]"
| "obj_set ((k', v') # ps) k v =
     (if k' = k then (k, v) # ps else (k', v') # obj_set ps k v)"

text \<open>The spread \<^verbatim>\<open>{...o}\<close> into a fresh object literal.\<close>

definition obj_spread :: "(string \<times> 'n json) list \<Rightarrow> (string \<times> 'n json) list" where
  "obj_spread ps = foldl (\<lambda>acc (k, v). obj_set acc k v) [] (own_entries (JObj ps))"

text \<open>
  Property reads, for the names the source reads: none of them is inherited from a
  prototype, so an object has the property when it is an own property, and any other
  value has none. \<open>get_prop\<close> is \<^verbatim>\<open>v.k\<close>, which throws on \<^verbatim>\<open>undefined\<close> and
  \<^verbatim>\<open>null\<close>; \<open>optional_prop\<close> is \<^verbatim>\<open>v?.k\<close>; \<open>nullish_or\<close> is \<^verbatim>\<open>v ?? d\<close>.
\<close>

fun own_prop :: "'n json \<Rightarrow> string \<Rightarrow> 'n json option" where
  "own_prop (JObj ps) k = map_of ps k"
| "own_prop _ k = None"

definition get_prop :: "'n json option \<Rightarrow> string \<Rightarrow> error + 'n json option" where
  "get_prop v k =
     (case v of
        None \<Rightarrow> Inl TypeError
      | Some JNull \<Rightarrow> Inl TypeError
      | Some x \<Rightarrow> Inr (own_prop x k))"

definition optional_prop :: "'n json option \<Rightarrow> string \<Rightarrow> 'n json option" where
  "optional_prop v k =
     (case v of None \<Rightarrow> None | Some JNull \<Rightarrow> None | Some x \<Rightarrow> own_prop x k)"

definition nullish_or :: "'n json option \<Rightarrow> 'n json \<Rightarrow> 'n json" where
  "nullish_or v d = (case v of None \<Rightarrow> d | Some JNull \<Rightarrow> d | Some x \<Rightarrow> x)"

section \<open>The trace list\<close>

text \<open>
  \<^verbatim>\<open>TraceBucket\<close> and \<^verbatim>\<open>TraceListResponse\<close> of \<^verbatim>\<open>formatTraces.ts\<close>. A field name
  spells the path of the nested property: \<open>trace_group_buckets\<close> is
  \<^verbatim>\<open>bucket.trace_group.buckets\<close>.
\<close>

record TraceGroupBucket =
  group_key :: string

record 'n TraceBucket =
  key :: string
  trace_group_buckets :: "TraceGroupBucket list"
  latency_value :: 'n
  error_count_doc_count :: 'n
  last_updated_value :: string

record 'n TraceListResponse =
  aggregations_traces_buckets :: "'n TraceBucket list"

type_synonym 'n OpenSearchQuery = "(string \<times> 'n json) list"

text \<open>
  The data frame handed to \<^verbatim>\<open>MutableDataFrame\<close>: the five value columns, the data
  link of the first column, and the key of the response.
\<close>

record 'n TraceListFrame =
  traceIds :: "string list"
  traceGroups :: "string list"
  latency :: "'n list"
  errors :: "'n list"
  lastUpdated :: "string list"
  datasourceUid :: "string option"
  datasourceName :: "string option"
  frame_key :: "'n json option"

text \<open>One pass of the \<^verbatim>\<open>forEach\<close> callback: five pushes, the second of which can throw.\<close>

definition push_bucket :: "'n TraceListFrame \<Rightarrow> 'n TraceBucket \<Rightarrow> error + 'n TraceListFrame" where
  "push_bucket fr bucket =
     (case trace_group_buckets bucket of
        [] \<Rightarrow> Inl TypeError
      | g # _ \<Rightarrow>
          Inr (fr\<lparr> traceIds := traceIds fr @ [key bucket],
                   traceGroups := traceGroups fr @ [group_key g],
                   latency := latency fr @ [latency_value bucket],
                   errors := errors fr @ [error_count_doc_count bucket],
                   lastUpdated := lastUpdated fr @ [last_updated_value bucket] \<rparr>))"

fun for_each_bucket :: "'n TraceListFrame \<Rightarrow> 'n TraceBucket list \<Rightarrow> error + 'n TraceListFrame" where
  "for_each_bucket fr [] = Inr fr"
| "for_each_bucket fr (b # bs) =
     (case push_bucket fr b of Inl e \<Rightarrow> Inl e | Inr fr' \<Rightarrow> for_each_bucket fr' bs)"

definition empty_frame :: "'n TraceListFrame" where
  "empty_frame =
     \<lparr> traceIds = [], traceGroups = [], latency = [], errors = [], lastUpdated = [],
       datasourceUid = None, datasourceName = None, frame_key = None \<rparr>"

definition createListTracesDataFrame ::
  "'n OpenSearchQuery list \<Rightarrow> 'n TraceListResponse list \<Rightarrow> string \<Rightarrow> string
     \<Rightarrow> error + 'n TraceListFrame" where
  "createListTracesDataFrame targets response uid name =
     (case response of
        [] \<Rightarrow> Inl TypeError
      | r # _ \<Rightarrow>
          (case for_each_bucket empty_frame (aggregations_traces_buckets r) of
             Inl e \<Rightarrow> Inl e
           | Inr fr \<Rightarrow>
               (case targets of
                  [] \<Rightarrow> Inl TypeError
                | t # _ \<Rightarrow>
                    Inr (fr\<lparr> datasourceUid := Some uid, datasourceName := Some name,
                             frame_key := map_of t ''refId'' \<rparr>))))"

text \<open>
  \<^verbatim>\<open>createTracesDataFrame\<close>, the earlier copy of the same function: no data link.
\<close>

definition createTracesDataFrame ::
  "'n OpenSearchQuery list \<Rightarrow> 'n TraceListResponse list \<Rightarrow> error + 'n TraceListFrame" where
  "createTracesDataFrame targets response =
     (case response of
        [] \<Rightarrow> Inl TypeError
      | r # _ \<Rightarrow>
          (case for_each_bucket empty_frame (aggregations_traces_buckets r) of
             Inl e \<Rightarrow> Inl e
           | Inr fr \<Rightarrow>
               (case targets of
                  [] \<Rightarrow> Inl TypeError
                | t # _ \<Rightarrow> Inr (fr\<lparr> frame_key := map_of t ''refId'' \<rparr>))))"

text \<open>
  The rows of a frame: row \<open>i\<close> takes the \<open>i\<close>-th value of each column.
\<close>

record 'n TraceSummaryRow =
  traceId :: string
  traceGroup :: string
  latencyMs :: 'n
  errorCount :: 'n
  lastUpdatedAt :: string

definition frame_row :: "'n TraceListFrame \<Rightarrow> nat \<Rightarrow> 'n TraceSummaryRow" where
  "frame_row fr i =
     \<lparr> traceId = traceIds fr ! i, traceGroup = traceGroups fr ! i, latencyMs = latency fr ! i,
       errorCount = errors fr ! i, lastUpdatedAt = lastUpdated fr ! i \<rparr>"

definition frame_rows :: "'n TraceListFrame \<Rightarrow> 'n TraceSummaryRow list" where
  "frame_rows fr = map (frame_row fr) [0..<length (traceIds fr)]"

section \<open>The query builders\<close>

text \<open>The Painless source text of the \<^verbatim>\<open>latency\<close> metric, a string literal of five lines.\<close>

definition latency_script :: string where
  "latency_script =
     ''\<newline>                if (doc.containsKey('traceGroupFields.durationInNanos') && !doc['traceGroupFields.durationInNanos'].empty) {''
     @ ''\<newline>                  return Math.round(doc['traceGroupFields.durationInNanos'].value / 10000) / 100.0''
     @ ''\<newline>                }''
     @ ''\<newline>                return 0''
     @ ''\<newline>                ''"

definition time_range :: "'n json" where
  "time_range =
     JObj [(''range'', JObj [(''startTime'',
        JObj [(''gte'', JStr ''$timeFrom''), (''lte'', JStr ''$timeTo'')])])]"

definition default_trace_body :: "('n::numeral) json" where
  "default_trace_body =
     JObj [
       (''size'', JNum 10),
       (''query'', JObj [(''bool'', JObj [
          (''must'', JArr [time_range]),
          (''filter'', JArr []),
          (''should'', JArr []),
          (''must_not'', JArr [])])]),
       (''aggs'', JObj [(''traces'', JObj [
          (''terms'', JObj [
             (''field'', JStr ''traceId''),
             (''size'', JNum 100),
             (''order'', JObj [(''_key'', JStr ''asc'')])]),
          (''aggs'', JObj [
             (''latency'', JObj [(''max'', JObj [(''script'', JObj [
                (''source'', JStr latency_script),
                (''lang'', JStr ''painless'')])])]),
             (''trace_group'', JObj [(''terms'', JObj [
                (''field'', JStr ''traceGroup''),
                (''size'', JNum 1)])]),
             (''error_count'', JObj [(''filter'', JObj [(''term'', JObj [
                (''traceGroupFields.statusCode'', JStr ''2'')])])]),
             (''last_updated'', JObj [(''max'', JObj [
                (''field'', JStr ''traceGroupFields.endTime'')])])])])])]"

definition createDefaultTraceQuery :: "('n::numeral) OpenSearchQuery \<Rightarrow> 'n OpenSearchQuery" where
  "createDefaultTraceQuery query =
     obj_set (obj_set (obj_spread query)
       ''luceneQueryMode'' (JStr ''traces''))
       ''luceneQueryObj'' default_trace_body"

definition single_trace_body :: "string \<Rightarrow> ('n::numeral) json" where
  "single_trace_body tid =
     JObj [
       (''size'', JNum 1000),
       (''query'', JObj [(''bool'', JObj [
          (''must'', JArr [time_range, JObj [(''term'', JObj [(''traceId'', JStr tid)])]]),
          (''filter'', JArr []),
          (''should'', JArr []),
          (''must_not'', JArr [])])])]"

definition createSingleTraceQuery :: "('n::numeral) OpenSearchQuery \<Rightarrow> 'n OpenSearchQuery" where
  "createSingleTraceQuery query =
     obj_set (obj_set (obj_set (obj_spread query)
       ''isSingleTrace'' (JBool True))
       ''luceneQueryMode'' (JStr ''traces''))
       ''luceneQueryObj'' (single_trace_body ''0000000000000000061141afde96cda8'')"

section \<open>Truthiness and string conversion\<close>

text \<open>
  What the program needs from the engine's numbers and dates, as parameters:
  \<open>num_truthy\<close> is \<^verbatim>\<open>ToBoolean\<close> on a number (false on zero and NaN),
  \<open>num_to_string\<close> is \<^verbatim>\<open>Number.prototype.toString\<close>, \<open>date_get_time v\<close> is
  \<^verbatim>\<open>new Date(v).getTime()\<close> and \<open>times_micro v\<close> is \<^verbatim>\<open>v * 0.000001\<close>, the last two
  for a \<open>v\<close> that converts to a primitive.
\<close>

record 'n host =
  num_truthy :: "'n \<Rightarrow> bool"
  num_to_string :: "'n \<Rightarrow> string"
  date_get_time :: "'n json option \<Rightarrow> 'n"
  times_micro :: "'n json option \<Rightarrow> 'n"

fun truthy :: "'n host \<Rightarrow> 'n json option \<Rightarrow> bool" where
  "truthy H None = False"
| "truthy H (Some JNull) = False"
| "truthy H (Some (JBool b)) = b"
| "truthy H (Some (JNum n)) = num_truthy H n"
| "truthy H (Some (JStr s)) = (s \<noteq> [])"
| "truthy H (Some (JArr xs)) = True"
| "truthy H (Some (JObj ps)) = True"

text \<open>
  \<^verbatim>\<open>ToString\<close>, as a template literal applies it. An object parsed from JSON has no
  callable property: with an own \<^verbatim>\<open>toString\<close> the conversion finds no method that
  returns a primitive and throws; without one it is \<^verbatim>\<open>[object Object]\<close>. An array joins
  the strings of its elements with commas, \<^verbatim>\<open>null\<close> counting as the empty string.
\<close>

fun to_string_val :: "'n host \<Rightarrow> 'n json \<Rightarrow> error + string"
  and join_vals :: "'n host \<Rightarrow> 'n json list \<Rightarrow> error + string" where
  "to_string_val H JNull = Inr ''null''"
| "to_string_val H (JBool b) = Inr (if b then ''true'' else ''false'')"
| "to_string_val H (JNum n) = Inr (num_to_string H n)"
| "to_string_val H (JStr s) = Inr s"
| "to_string_val H (JArr xs) = join_vals H xs"
| "to_string_val H (JObj ps) =
     (if ''toString'' \<in> set (map fst ps) then Inl TypeError else Inr ''[object Object]'')"
| "join_vals H [] = Inr []"
| "join_vals H (x # xs) =
     (case (if x = JNull then Inr [] else to_string_val H x) of
        Inl e \<Rightarrow> Inl e
      | Inr s \<Rightarrow>
          (if xs = [] then Inr s
           else (case join_vals H xs of Inl e \<Rightarrow> Inl e | Inr r \<Rightarrow> Inr (s @ '','' @ r))))"

definition to_string :: "'n host \<Rightarrow> 'n json option \<Rightarrow> error + string" where
  "to_string H v = (case v of None \<Rightarrow> Inr ''undefined'' | Some x \<Rightarrow> to_string_val H x)"

text \<open>
  The truth value of \<^verbatim>\<open>v.length\<close>: the read throws on \<^verbatim>\<open>undefined\<close> and
  \<^verbatim>\<open>null\<close>; an array and a string have their length, an object its own property of
  that name, a number or a boolean nothing.
\<close>

fun length_truthy :: "'n host \<Rightarrow> 'n json option \<Rightarrow> error + bool" where
  "length_truthy H None = Inl TypeError"
| "length_truthy H (Some JNull) = Inl TypeError"
| "length_truthy H (Some (JArr xs)) = Inr (xs \<noteq> [])"
| "length_truthy H (Some (JStr s)) = Inr (s \<noteq> [])"
| "length_truthy H (Some (JObj ps)) = Inr (truthy H (map_of ps ''length''))"
| "length_truthy H (Some _) = Inr False"

section \<open>Paths of \<^verbatim>\<open>lodash.set\<close>\<close>

text \<open>
  \<^verbatim>\<open>set\<close> is imported from lodash; what follows is its \<^verbatim>\<open>baseSet\<close>, \<^verbatim>\<open>castPath\<close>,
  \<^verbatim>\<open>isKey\<close>, \<^verbatim>\<open>stringToPath\<close> and \<^verbatim>\<open>isIndex\<close> (version 4.17.21).
\<close>

definition path_char :: "char \<Rightarrow> bool" where
  "path_char c = (c \<noteq> CHR ''.'' \<and> c \<noteq> CHR ''['' \<and> c \<noteq> CHR '']'')"

definition is_digit :: "char \<Rightarrow> bool" where
  "is_digit c = (digit_val c \<noteq> None)"

text \<open>\<^verbatim>\<open>\w\<close>: a letter, a digit or the underscore.\<close>

definition word_char :: "char \<Rightarrow> bool" where
  "word_char c =
     (c \<in> set ''abcdefghijklmnopqrstuvwxyzABCDEFGHIJKLMNOPQRSTUVWXYZ0123456789_'')"

text \<open>
  After an opening bracket: \<^verbatim>\<open>-?\d+(?:\.\d+)?\<close> and the closing bracket. The result is
  the number's text and what follows the bracket.
\<close>

definition bracket_number :: "string \<Rightarrow> (string \<times> string) option" where
  "bracket_number s =
     (let sign = (if s \<noteq> [] \<and> hd s = CHR ''-'' then ''-'' else []);
          r1 = drop (length sign) s;
          ds = takeWhile is_digit r1;
          r2 = dropWhile is_digit r1
      in if ds = [] then None
         else (case r2 of
                 [] \<Rightarrow> None
               | c # r3 \<Rightarrow>
                   if c = CHR '']'' then Some (sign @ ds, r3)
                   else if c = CHR ''.'' then
                     (let fs = takeWhile is_digit r3; r4 = dropWhile is_digit r3
                      in if fs = [] then None
                         else (case r4 of
                                 [] \<Rightarrow> None
                               | d # r5 \<Rightarrow>
                                   if d = CHR '']'' then Some (sign @ ds @ ''.'' @ fs, r5)
                                   else None))
                   else None))"

text \<open>
  After an opening bracket and a quote \<open>q\<close>: \<^verbatim>\<open>((?:(?!q)[^\\]|\\.)*?)q\]\<close>. A backslash
  takes the next character with it (a line terminator excepted); the first quote that
  no backslash takes must close the bracket.
\<close>

fun quoted_body :: "char \<Rightarrow> string \<Rightarrow> (string \<times> string) option" where
  "quoted_body q [] = None"
| "quoted_body q [c] = None"
| "quoted_body q (c # d # cs) =
     (if c = CHR 0x5C then
        (if d = CHR 0x0A \<or> d = CHR 0x0D then None
         else (case quoted_body q cs of
                 None \<Rightarrow> None
               | Some (body, rest) \<Rightarrow> Some (c # d # body, rest)))
      else if c = q then (if d = CHR '']'' then Some ([], cs) else None)
      else (case quoted_body q (d # cs) of
              None \<Rightarrow> None
            | Some (body, rest) \<Rightarrow> Some (c # body, rest)))"

text \<open>\<^verbatim>\<open>subString.replace(/\\(\\)?/g, '$1')\<close>.\<close>

fun unescape :: "string \<Rightarrow> string" where
  "unescape [] = []"
| "unescape [c] = (if c = CHR 0x5C then [] else [c])"
| "unescape (c # d # cs) =
     (if c = CHR 0x5C then (if d = CHR 0x5C then d # unescape cs else unescape (d # cs))
      else c # unescape (d # cs))"

definition bracket_quoted :: "string \<Rightarrow> (string \<times> string) option" where
  "bracket_quoted s =
     (case s of
        [] \<Rightarrow> None
      | q # cs \<Rightarrow>
          if q = CHR 0x22 \<or> q = CHR 0x27 then
            (case quoted_body q cs of
               None \<Rightarrow> None
             | Some (body, rest) \<Rightarrow> Some (unescape body, rest))
          else None)"

definition bracket_token :: "string \<Rightarrow> (string \<times> string) option" where
  "bracket_token s =
     (case bracket_number s of Some r \<Rightarrow> Some r | None \<Rightarrow> bracket_quoted s)"

text \<open>
  The lookahead \<^verbatim>\<open>(?=(?:\.|\[\])(?:\.|\[\]|$))\<close>: an empty key between two
  separators, or between a separator and the end.
\<close>

definition after_separator :: "string \<Rightarrow> string option" where
  "after_separator s =
     (case s of
        [] \<Rightarrow> None
      | c # cs \<Rightarrow>
          if c = CHR ''.'' then Some cs
          else if c = CHR ''['' \<and> cs \<noteq> [] \<and> hd cs = CHR '']'' then Some (tl cs)
          else None)"

definition empty_key_here :: "string \<Rightarrow> bool" where
  "empty_key_here s =
     (case after_separator s of
        None \<Rightarrow> False
      | Some r \<Rightarrow> r = [] \<or> after_separator r \<noteq> None)"


text \<open>
  The scan of \<^verbatim>\<open>string.replace(rePropName, ...)\<close>: at each position the first
  alternative that matches pushes a key (a run of characters that are neither a dot nor
  a bracket; a bracketed number or quoted string; the empty key of the lookahead), and a
  character that starts no match is skipped.
\<close>

function path_keys :: "string \<Rightarrow> string list" where
  "path_keys [] = []"
| "path_keys (c # cs) =
     (if path_char c then (c # takeWhile path_char cs) # path_keys (dropWhile path_char cs)
      else (case (if c = CHR ''['' then bracket_token cs else None) of
              Some (tok, rest) \<Rightarrow> tok # path_keys rest
            | None \<Rightarrow>
                if empty_key_here (c # cs) then [] # path_keys cs else path_keys cs))"
  by pat_completeness auto
termination
proof (relation "measure length")
  have number: "length rest < length s" if "bracket_number s = Some (tok, rest)"
    for s tok rest
  proof -
    define sign where "sign = (if s \<noteq> [] \<and> hd s = CHR ''-'' then ''-'' else [])"
    define r1 where "r1 = drop (length sign) s"
    define r2 where "r2 = dropWhile is_digit r1"
    have l1: "length r1 \<le> length s" by (simp add: r1_def)
    have l2: "length r2 \<le> length r1" unfolding r2_def by (rule length_dropWhile_le)
    from that obtain c r3 where r2: "r2 = c # r3"
      unfolding bracket_number_def Let_def sign_def [symmetric] r1_def [symmetric]
        r2_def [symmetric]
      by (cases r2) (auto split: if_splits)
    have l3: "length (dropWhile is_digit r3) \<le> length r3" by (rule length_dropWhile_le)
    from that r2 have "rest = r3 \<or> (\<exists>d. dropWhile is_digit r3 = d # rest)"
      unfolding bracket_number_def Let_def sign_def [symmetric] r1_def [symmetric]
        r2_def [symmetric]
      by (auto split: if_splits list.splits)
    then show ?thesis
    proof
      assume "rest = r3"
      with r2 l1 l2 show ?thesis by simp
    next
      assume "\<exists>d. dropWhile is_digit r3 = d # rest"
      then obtain d where "dropWhile is_digit r3 = d # rest" ..
      with l3 have "length rest < length r3" by simp
      with r2 l1 l2 show ?thesis by simp
    qed
  qed
  have quoted: "length rest < length s" if "quoted_body q s = Some (body, rest)"
    for q s body rest
    using that
  proof (induction q s arbitrary: body rest rule: quoted_body.induct)
    case (3 q c d cs)
    show ?case
    proof (cases "c = CHR 0x5C")
      case True
      with "3.prems" obtain b where "quoted_body q cs = Some (b, rest)"
        by (auto split: if_splits option.splits)
      with "3.prems" True have "length rest < length cs"
        by (intro "3.IH"(1)) (auto split: if_splits)
      then show ?thesis by simp
    next
      case False
      show ?thesis
      proof (cases "c = q")
        case True
        with False "3.prems" show ?thesis by (auto split: if_splits)
      next
        case nq: False
        with False "3.prems" obtain b where "quoted_body q (d # cs) = Some (b, rest)"
          by (auto split: option.splits)
        from "3.IH"(2) [OF False nq this] show ?thesis by simp
      qed
    qed
  qed simp_all
  have token: "length rest < length s" if "bracket_token s = Some (tok, rest)"
    for s tok rest
    using that unfolding bracket_token_def bracket_quoted_def
    by (auto split: option.splits list.splits if_splits dest: number quoted)
  show "wf (measure length)" by simp
  show "(dropWhile path_char cs, c # cs) \<in> measure length" for c :: char and cs
    using length_dropWhile_le [of path_char cs] by simp
  show "(rest, c # cs) \<in> measure length"
    if "(if c = CHR ''['' then bracket_token cs else None) = Some x2" and "(tok, rest) = x2"
    for c :: char and cs x2 tok rest
  proof -
    from that have "bracket_token cs = Some (tok, rest)" by (simp split: if_splits)
    from token [OF this] show ?thesis by simp
  qed
qed simp_all

declare path_keys.simps [simp del]

definition stringToPath :: "string \<Rightarrow> string list" where
  "stringToPath s = (if s \<noteq> [] \<and> hd s = CHR ''.'' then [[]] else []) @ path_keys s"

text \<open>
  \<^verbatim>\<open>reIsDeepProp\<close>, \<^verbatim>\<open>/\.|\[(?:[^[\]]*|(["'])(?:(?!\1)[^\\]|\\.)*?\1)\]/\<close>, matched at
  the head of a string and anywhere in it.
\<close>

definition deep_prop_here :: "string \<Rightarrow> bool" where
  "deep_prop_here s =
     (case s of
        [] \<Rightarrow> False
      | c # cs \<Rightarrow>
          if c = CHR ''.'' then True
          else if c = CHR ''['' then
            (case dropWhile (\<lambda>x. x \<noteq> CHR ''['' \<and> x \<noteq> CHR '']'') cs of
               d # _ \<Rightarrow> d = CHR '']'' \<or> (case cs of
                                            [] \<Rightarrow> False
                                          | q # body \<Rightarrow> (q = CHR 0x22 \<or> q = CHR 0x27)
                                                        \<and> quoted_body q body \<noteq> None)
             | [] \<Rightarrow> False)
          else False)"

fun is_deep_prop :: "string \<Rightarrow> bool" where
  "is_deep_prop [] = False"
| "is_deep_prop (c # cs) = (deep_prop_here (c # cs) \<or> is_deep_prop cs)"

text \<open>\<^verbatim>\<open>reIsPlainProp\<close>, \<^verbatim>\<open>/^\w*$/\<close>.\<close>

definition is_plain_prop :: "string \<Rightarrow> bool" where
  "is_plain_prop s = list_all word_char s"


text \<open>
  \<^verbatim>\<open>isKey(value, object)\<close> for a string: a plain name, or a string with no path
  syntax, or a property the object already has. The names an object inherits are plain
  names, so only own properties matter to the last test.
\<close>

definition isKey :: "string \<Rightarrow> (string \<times> 'n json) list \<Rightarrow> bool" where
  "isKey s object = (is_plain_prop s \<or> \<not> is_deep_prop s \<or> s \<in> set (map fst object))"

definition castPath :: "string \<Rightarrow> (string \<times> 'n json) list \<Rightarrow> string list" where
  "castPath s object = (if isKey s object then [s] else stringToPath s)"

text \<open>\<^verbatim>\<open>isIndex(value)\<close> with the default bound \<^verbatim>\<open>MAX_SAFE_INTEGER\<close>.\<close>

definition isIndex :: "string \<Rightarrow> bool" where
  "isIndex s = (case uint_of s of None \<Rightarrow> False | Some n \<Rightarrow> n < 9007199254740991)"

definition unsafe_key :: "string \<Rightarrow> bool" where
  "unsafe_key k = (k = ''__proto__'' \<or> k = ''constructor'' \<or> k = ''prototype'')"

text \<open>
  The properties every object inherits from \<^verbatim>\<open>Object.prototype\<close>, the two that
  \<open>unsafe_key\<close> covers apart. Their values are functions: a path that steps through one
  of them leaves the values of this development.
\<close>

definition inherited_key :: "string \<Rightarrow> bool" where
  "inherited_key k =
     (k \<in> set [''hasOwnProperty'', ''isPrototypeOf'', ''propertyIsEnumerable'',
               ''toLocaleString'', ''toString'', ''valueOf'', ''__defineGetter__'',
               ''__defineSetter__'', ''__lookupGetter__'', ''__lookupSetter__''])"

text \<open>
  The value \<^verbatim>\<open>baseSet\<close> steps into at a key that is not the last of the path: what is
  there when that is an object or an array, else a fresh array when the next key is an
  index and a fresh object otherwise.
\<close>

definition step_value :: "'n json option \<Rightarrow> string \<Rightarrow> 'n json" where
  "step_value objValue next_key =
     (case objValue of
        Some (JObj ps) \<Rightarrow> JObj ps
      | Some (JArr xs) \<Rightarrow> JArr xs
      | _ \<Rightarrow> if isIndex next_key then JArr [] else JObj [])"

definition arr_set :: "'a list \<Rightarrow> nat \<Rightarrow> 'a \<Rightarrow> 'a list" where
  "arr_set xs i v = (if i < length xs then xs[i := v] else xs @ [v])"

definition arr_get :: "'a list \<Rightarrow> nat \<Rightarrow> 'a option" where
  "arr_get xs i = (if i < length xs then Some (xs ! i) else None)"

text \<open>
  The loop of \<^verbatim>\<open>baseSet\<close> from the object \<open>nested\<close> on, returning \<open>nested\<close> as the
  loop leaves it. An unsafe key ends the whole call; what the keys before it assigned
  stays assigned.
\<close>

fun set_path :: "'n json \<Rightarrow> string list \<Rightarrow> 'n json \<Rightarrow> error + 'n json" where
  "set_path nested [] v = Inr nested"
| "set_path nested (k # ks) v =
     (if unsafe_key k then Inr nested
      else (case nested of
              JObj ps \<Rightarrow>
                (if ks = [] then Inr (JObj (obj_set ps k v))
                 else if map_of ps k = None \<and> inherited_key k then Inl Unmodelled
                 else (case set_path (step_value (map_of ps k) (hd ks)) ks v of
                         Inl e \<Rightarrow> Inl e
                       | Inr child \<Rightarrow> Inr (JObj (obj_set ps k child))))
            | JArr xs \<Rightarrow>
                (case array_index k of
                   None \<Rightarrow> Inl Unmodelled
                 | Some i \<Rightarrow>
                     if length xs < i then Inl Unmodelled
                     else if ks = [] then Inr (JArr (arr_set xs i v))
                     else (case set_path (step_value (arr_get xs i) (hd ks)) ks v of
                             Inl e \<Rightarrow> Inl e
                           | Inr child \<Rightarrow> Inr (JArr (arr_set xs i child))))
            | _ \<Rightarrow> Inr nested))"

text \<open>\<^verbatim>\<open>set(object, key, value)\<close> on the object with the properties \<open>object\<close>.\<close>

definition lodash_set ::
  "(string \<times> 'n json) list \<Rightarrow> string \<Rightarrow> 'n json \<Rightarrow> error + (string \<times> 'n json) list" where
  "lodash_set object k v =
     (case set_path (JObj object) (castPath k object) v of
        Inl e \<Rightarrow> Inl e
      | Inr (JObj ps) \<Rightarrow> Inr ps
      | Inr _ \<Rightarrow> Inr object)"

section \<open>Span rows\<close>

text \<open>
  The body of the callback in \<^verbatim>\<open>transformTraceResponse\<close>, first half: every key of
  \<^verbatim>\<open>spanData\<close>, in the order of \<^verbatim>\<open>Object.keys\<close>, is set into \<^verbatim>\<open>nestedSpan\<close>, which
  starts empty.
\<close>

fun set_entries ::
  "(string \<times> 'n json) list \<Rightarrow> (string \<times> 'n json) list \<Rightarrow> error + (string \<times> 'n json) list" where
  "set_entries nestedSpan [] = Inr nestedSpan"
| "set_entries nestedSpan ((k, v) # es) =
     (case lodash_set nestedSpan k v of
        Inl e \<Rightarrow> Inl e
      | Inr nestedSpan' \<Rightarrow> set_entries nestedSpan' es)"

definition nest_span :: "(string \<times> 'n json) list \<Rightarrow> error + (string \<times> 'n json) list" where
  "nest_span spanData = set_entries [] (own_entries (JObj spanData))"


text \<open>
  \<^verbatim>\<open>new Date(v).getTime()\<close> and \<^verbatim>\<open>v * 0.000001\<close> first convert \<open>v\<close> to a primitive,
  which throws exactly when \<open>to_string\<close> does.
\<close>

definition date_ms :: "'n host \<Rightarrow> 'n json option \<Rightarrow> error + 'n" where
  "date_ms H v = (case to_string H v of Inl e \<Rightarrow> Inl e | Inr _ \<Rightarrow> Inr (date_get_time H v))"

definition nanos_to_ms :: "'n host \<Rightarrow> 'n json option \<Rightarrow> error + 'n" where
  "nanos_to_ms H v = (case to_string H v of Inl e \<Rightarrow> Inl e | Inr _ \<Rightarrow> Inr (times_micro H v))"

text \<open>\<^verbatim>\<open>Array.prototype.some\<close> and \<^verbatim>\<open>filter\<close> with a callback that can throw.\<close>

fun array_some :: "('a \<Rightarrow> error + bool) \<Rightarrow> 'a list \<Rightarrow> error + bool" where
  "array_some f [] = Inr False"
| "array_some f (x # xs) =
     (case f x of Inl e \<Rightarrow> Inl e | Inr b \<Rightarrow> if b then Inr True else array_some f xs)"

fun array_filter :: "('a \<Rightarrow> error + bool) \<Rightarrow> 'a list \<Rightarrow> error + 'a list" where
  "array_filter f [] = Inr []"
| "array_filter f (x # xs) =
     (case f x of
        Inl e \<Rightarrow> Inl e
      | Inr b \<Rightarrow>
          (case array_filter f xs of
             Inl e \<Rightarrow> Inl e
           | Inr ys \<Rightarrow> Inr (if b then x # ys else ys)))"

text \<open>The callback \<^verbatim>\<open>event => event.attributes.error\<close>, and its truth value.\<close>

definition event_error :: "'n json \<Rightarrow> error + 'n json option" where
  "event_error event =
     (case get_prop (Some event) ''attributes'' of
        Inl e \<Rightarrow> Inl e
      | Inr attributes \<Rightarrow> get_prop attributes ''error'')"

definition event_has_error :: "'n host \<Rightarrow> 'n json \<Rightarrow> error + bool" where
  "event_has_error H event =
     (case event_error event of Inl e \<Rightarrow> Inl e | Inr v \<Rightarrow> Inr (truthy H v))"

text \<open>A method call \<^verbatim>\<open>v.some(...)\<close>, \<^verbatim>\<open>v.filter(...)\<close>, \<^verbatim>\<open>v.map(...)\<close> on a value
  that is not an array finds no function to call.\<close>

definition spanHasError :: "'n host \<Rightarrow> 'n json option \<Rightarrow> error + bool" where
  "spanHasError H spanEvents =
     (case spanEvents of
        Some (JArr evs) \<Rightarrow> array_some (event_has_error H) evs
      | _ \<Rightarrow> Inl TypeError)"

text \<open>The template literal \<^verbatim>\<open>`${event.name}: ${event.attributes.error}`\<close>.\<close>

definition stack_line :: "'n host \<Rightarrow> 'n json \<Rightarrow> error + string" where
  "stack_line H event =
     (case get_prop (Some event) ''name'' of
        Inl e \<Rightarrow> Inl e
      | Inr name \<Rightarrow>
          (case to_string H name of
             Inl e \<Rightarrow> Inl e
           | Inr s1 \<Rightarrow>
               (case event_error event of
                  Inl e \<Rightarrow> Inl e
                | Inr err \<Rightarrow>
                    (case to_string H err of
                       Inl e \<Rightarrow> Inl e
                     | Inr s2 \<Rightarrow> Inr (s1 @ '': '' @ s2)))))"

definition getStackTraces :: "'n host \<Rightarrow> 'n json option \<Rightarrow> error + string list option" where
  "getStackTraces H events =
     (case events of
        Some (JArr evs) \<Rightarrow>
          (case array_filter (event_has_error H) evs of
             Inl e \<Rightarrow> Inl e
           | Inr errs \<Rightarrow>
               (case map_result (stack_line H) errs of
                  Inl e \<Rightarrow> Inl e
                | Inr stackTraces \<Rightarrow>
                    Inr (if 0 < length stackTraces then Some stackTraces else None)))
      | _ \<Rightarrow> Inl TypeError)"

definition convertToKeyValue :: "'n json \<Rightarrow> (string \<times> 'n json) list" where
  "convertToKeyValue tags = own_entries tags"

record 'n TraceLog =
  timestamp :: 'n
  log_fields :: "(string \<times> 'n json option) list"

definition event_log :: "'n host \<Rightarrow> 'n json \<Rightarrow> error + 'n TraceLog" where
  "event_log H event =
     (case get_prop (Some event) ''time'' of
        Inl e \<Rightarrow> Inl e
      | Inr time \<Rightarrow>
          (case date_ms H time of
             Inl e \<Rightarrow> Inl e
           | Inr ms \<Rightarrow>
               (case get_prop (Some event) ''name'' of
                  Inl e \<Rightarrow> Inl e
                | Inr name \<Rightarrow> Inr \<lparr> timestamp = ms, log_fields = [(''name'', name)] \<rparr>)))"

definition transformEventsIntoLogs :: "'n host \<Rightarrow> 'n json option \<Rightarrow> error + 'n TraceLog list" where
  "transformEventsIntoLogs H events =
     (case events of
        Some (JArr evs) \<Rightarrow> map_result (event_log H) evs
      | _ \<Rightarrow> Inl TypeError)"

record 'n OpenSearchSpan =
  source :: "(string \<times> 'n json) list"

text \<open>
  \<^verbatim>\<open>TraceSpanRow\<close> as the callback builds it. \<open>stackTraces\<close> is \<open>None\<close> when the row
  has no such key, \<open>Some None\<close> when the key holds \<^verbatim>\<open>undefined\<close>.
\<close>

record 'n TraceSpanRow =
  parentSpanID :: "'n json option"
  traceID :: "'n json option"
  spanID :: "'n json option"
  operationName :: "'n json option"
  startTime :: 'n
  duration :: 'n
  serviceName :: "'n json option"
  tags :: "(string \<times> 'n json) list"
  serviceTags :: "(string \<times> 'n json) list"
  stackTraces :: "string list option option"
  logs :: "'n TraceLog list"

text \<open>The second half of the callback: the row of a nested span.\<close>

definition span_row :: "'n host \<Rightarrow> (string \<times> 'n json) list \<Rightarrow> error + 'n TraceSpanRow" where
  "span_row H nestedSpan =
     (let events = map_of nestedSpan ''events'' in
      case (if truthy H events then spanHasError H events else Inr False) of
        Inl e \<Rightarrow> Inl e
      | Inr hasError \<Rightarrow>
      (case date_ms H (map_of nestedSpan ''startTime'') of
        Inl e \<Rightarrow> Inl e
      | Inr start \<Rightarrow>
      (case nanos_to_ms H (map_of nestedSpan ''durationInNanos'') of
        Inl e \<Rightarrow> Inl e
      | Inr dur \<Rightarrow>
      (case (if hasError then (case getStackTraces H events of
                                 Inl e \<Rightarrow> Inl e
                               | Inr st \<Rightarrow> Inr (Some st))
             else Inr None) of
        Inl e \<Rightarrow> Inl e
      | Inr stack \<Rightarrow>
      (case length_truthy H events of
        Inl e \<Rightarrow> Inl e
      | Inr nonempty \<Rightarrow>
      (case (if nonempty then transformEventsIntoLogs H events else Inr []) of
        Inl e \<Rightarrow> Inl e
      | Inr event_logs \<Rightarrow>
          Inr \<lparr> parentSpanID = map_of nestedSpan ''parentSpanId'',
                traceID = map_of nestedSpan ''traceId'',
                spanID = map_of nestedSpan ''spanId'',
                operationName = map_of nestedSpan ''name'',
                startTime = start,
                duration = dur,
                serviceName = map_of nestedSpan ''serviceName'',
                tags = convertToKeyValue
                         (nullish_or (optional_prop (map_of nestedSpan ''span'') ''attributes'')
                            (JObj []))
                       @ [(''error'', JBool hasError)],
                serviceTags =
                  (let attributes = optional_prop (map_of nestedSpan ''resource'') ''attributes''
                   in if truthy H attributes
                      then (case attributes of Some a \<Rightarrow> convertToKeyValue a | None \<Rightarrow> [])
                      else []),
                stackTraces = stack,
                logs = event_logs \<rparr>))))))"

definition transformSpan :: "'n host \<Rightarrow> 'n OpenSearchSpan \<Rightarrow> error + 'n TraceSpanRow" where
  "transformSpan H hit =
     (case nest_span (source hit) of
        Inl e \<Rightarrow> Inl e
      | Inr nestedSpan \<Rightarrow> span_row H nestedSpan)"

definition transformTraceResponse ::
  "'n host \<Rightarrow> 'n OpenSearchSpan list \<Rightarrow> error + 'n TraceSpanRow list" where
  "transformTraceResponse H spanList = map_result (transformSpan H) spanList"

section \<open>What the specification describes\<close>

text \<open>
  The summary row the specification assigns to a bucket; none when the bucket has no
  \<^verbatim>\<open>trace_group\<close> sub-bucket.
\<close>

definition bucket_summary :: "'n TraceBucket \<Rightarrow> 'n TraceSummaryRow option" where
  "bucket_summary b =
     (case trace_group_buckets b of
        [] \<Rightarrow> None
      | g # _ \<Rightarrow>
          Some \<lparr> traceId = key b, traceGroup = group_key g, latencyMs = latency_value b,
                 errorCount = error_count_doc_count b,
                 lastUpdatedAt = last_updated_value b \<rparr>)"

definition first_group :: "'n TraceBucket \<Rightarrow> string" where
  "first_group b = (case trace_group_buckets b of [] \<Rightarrow> [] | g # _ \<Rightarrow> group_key g)"

definition first_response :: "'a list \<Rightarrow> 'a option" where
  "first_response rs = (case rs of [] \<Rightarrow> None | r # _ \<Rightarrow> Some r)"

text \<open>The value at a path of property names, in a value and in a query object.\<close>

fun json_at :: "'n json \<Rightarrow> string list \<Rightarrow> 'n json option" where
  "json_at v [] = Some v"
| "json_at (JObj ps) (k # ks) =
     (case map_of ps k of None \<Rightarrow> None | Some v \<Rightarrow> json_at v ks)"
| "json_at _ (k # ks) = None"

definition query_at :: "'n OpenSearchQuery \<Rightarrow> string list \<Rightarrow> 'n json option" where
  "query_at q path = json_at (JObj q) path"

text \<open>
  The events of a nested span (none unless \<^verbatim>\<open>events\<close> is an array), the
  \<^verbatim>\<open>attributes.error\<close> of an event read without throwing, and the line
  \<^verbatim>\<open><event.name>: <event.attributes.error>\<close> of an event.
\<close>

definition span_events :: "(string \<times> 'n json) list \<Rightarrow> 'n json list" where
  "span_events nestedSpan =
     (case map_of nestedSpan ''events'' of Some (JArr evs) \<Rightarrow> evs | _ \<Rightarrow> [])"

definition error_attribute :: "'n json \<Rightarrow> 'n json option" where
  "error_attribute event =
     (case own_prop event ''attributes'' of None \<Rightarrow> None | Some a \<Rightarrow> own_prop a ''error'')"

definition has_truthy_error :: "'n host \<Rightarrow> 'n json \<Rightarrow> bool" where
  "has_truthy_error H event = truthy H (error_attribute event)"

definition stack_text :: "'n host \<Rightarrow> 'n json \<Rightarrow> string option" where
  "stack_text H event =
     (case (to_string H (own_prop event ''name''), to_string H (error_attribute event)) of
        (Inr name, Inr err) \<Rightarrow> Some (name @ '': '' @ err)
      | _ \<Rightarrow> None)"

text \<open>An event as \<^verbatim>\<open>OpenSearchSpanEvent\<close> types it: an object with an attribute mapping.\<close>

definition event_has_attributes :: "'n json \<Rightarrow> bool" where
  "event_has_attributes event =
     (case own_prop event ''attributes'' of None \<Rightarrow> False | Some a \<Rightarrow> a \<noteq> JNull)"



definition flat_key :: "string \<Rightarrow> bool" where
  "flat_key k = (\<not> is_deep_prop k \<and> \<not> unsafe_key k)"

definition assign_all :: "(string \<times> 'a) list \<Rightarrow> (string \<times> 'a) list \<Rightarrow> (string \<times> 'a) list" where
  "assign_all object es = foldl (\<lambda>acc (k, v). obj_set acc k v) object es"

text \<open>
  A nested span on which the callback returns a row: its \<^verbatim>\<open>events\<close> are an array of
  events that each have an attribute mapping, and every value the callback turns into a
  string, a date or a number converts to a primitive (\<open>converts\<close>: \<open>to_string\<close> does not
  throw).
\<close>

definition converts :: "'n host \<Rightarrow> 'n json option \<Rightarrow> bool" where
  "converts H v = (case to_string H v of Inl _ \<Rightarrow> False | Inr _ \<Rightarrow> True)"

definition well_formed_event :: "'n host \<Rightarrow> 'n json \<Rightarrow> bool" where
  "well_formed_event H event =
     (event_has_attributes event \<and> converts H (own_prop event ''name'')
      \<and> converts H (error_attribute event) \<and> converts H (own_prop event ''time''))"

definition well_formed_span :: "'n host \<Rightarrow> (string \<times> 'n json) list \<Rightarrow> bool" where
  "well_formed_span H nestedSpan =
     ((case map_of nestedSpan ''events'' of
         Some (JArr evs) \<Rightarrow> list_all (well_formed_event H) evs
       | _ \<Rightarrow> False)
      \<and> converts H (map_of nestedSpan ''startTime'')
      \<and> converts H (map_of nestedSpan ''durationInNanos''))"






subsection \<open>Example inputs\<close>

definition example_host :: "int host" where
  "example_host =
     \<lparr> num_truthy = (\<lambda>n. n \<noteq> 0),
       num_to_string = (\<lambda>n. if n < 0 then CHR ''-'' # dec (nat (- n)) else dec (nat n)),
       date_get_time = (\<lambda>v. 0),
       times_micro = (\<lambda>v. 0) \<rparr>"

definition example_event :: "int json" where
  "example_event =
     JObj [(''name'', JStr ''exception''), (''time'', JStr ''2024-01-01T00:00:00Z''),
           (''attributes'', JObj [(''error'', JStr ''boom'')])]"

definition quiet_event :: "int json" where
  "quiet_event =
     JObj [(''name'', JStr ''retry''), (''time'', JStr ''2024-01-01T00:00:01Z''),
           (''attributes'', JObj [(''error'', JStr [])])]"

definition example_span :: "int OpenSearchSpan" where
  "example_span =
     \<lparr> source = [(''traceId'', JStr ''abc''),
                 (''span.attributes.http@status_code'', JNum 200),
                 (''events'', JArr [quiet_event, example_event])] \<rparr>"

definition example_bucket :: "real TraceBucket" where
  "example_bucket =
     \<lparr> key = ''abc'', trace_group_buckets = [\<lparr> group_key = ''checkout'' \<rparr>],
       latency_value = 42.5, error_count_doc_count = 2,
       last_updated_value = ''2024-01-01T00:00:00Z'' \<rparr>"

definition example_target :: "'n OpenSearchQuery" where
  "example_target = [(''refId'', JStr ''A'')]"

section \<open>The trace list: rows, failure, and the responses read\<close>

lemma for_each_bucket_columns:
  "\<forall>b\<in>set bs. trace_group_buckets b \<noteq> [] \<Longrightarrow>
   for_each_bucket fr bs =
     Inr (fr\<lparr> traceIds := traceIds fr @ map key bs,
              traceGroups := traceGroups fr @ map first_group bs,
              latency := latency fr @ map latency_value bs,
              errors := errors fr @ map error_count_doc_count bs,
              lastUpdated := lastUpdated fr @ map last_updated_value bs \<rparr>)"
proof (induction bs arbitrary: fr)
  case Nil
  then show ?case by simp
next
  case (Cons b bs)
  then obtain g gs where g: "trace_group_buckets b = g # gs"
    by (cases "trace_group_buckets b") auto
  from Cons.prems have rest: "\<forall>b\<in>set bs. trace_group_buckets b \<noteq> []" by simp
  show ?case
    by (simp add: push_bucket_def first_group_def g Cons.IH [OF rest])
qed

lemma for_each_bucket_throws:
  "b \<in> set bs \<Longrightarrow> trace_group_buckets b = [] \<Longrightarrow> for_each_bucket fr bs = Inl TypeError"
proof (induction bs arbitrary: fr)
  case Nil
  then show ?case by simp
next
  case (Cons a bs)
  show ?case
  proof (cases "trace_group_buckets a")
    case Nil
    then show ?thesis by (simp add: push_bucket_def)
  next
    case (Cons g gs)
    with Cons.prems have "b \<in> set bs" by auto
    from Cons.IH [OF this Cons.prems(2)] Cons show ?thesis
      by (simp add: push_bucket_def)
  qed
qed

lemma frame_rows_columns:
  assumes "\<forall>b\<in>set bs. trace_group_buckets b \<noteq> []"
    and "traceIds fr = map key bs" "traceGroups fr = map first_group bs"
    and "latency fr = map latency_value bs" "errors fr = map error_count_doc_count bs"
    and "lastUpdated fr = map last_updated_value bs"
  shows "map Some (frame_rows fr) = map bucket_summary bs"
proof (rule nth_equalityI)
  show "length (map Some (frame_rows fr)) = length (map bucket_summary bs)"
    by (simp add: frame_rows_def assms)
next
  fix i assume "i < length (map Some (frame_rows fr))"
  then have i: "i < length bs" by (simp add: frame_rows_def assms)
  then have "trace_group_buckets (bs ! i) \<noteq> []" using assms(1) by simp
  then obtain g gs where g: "trace_group_buckets (bs ! i) = g # gs"
    by (cases "trace_group_buckets (bs ! i)") auto
  show "map Some (frame_rows fr) ! i = map bucket_summary bs ! i"
    using i by (simp add: frame_rows_def frame_row_def assms bucket_summary_def first_group_def g)
qed

text \<open>
  C4. When every bucket of the first response has a \<^verbatim>\<open>trace_group\<close> sub-bucket (and
  there is a target to take the key from), the assembler returns a frame whose rows are
  the buckets' summaries: one row per bucket, in bucket order, with
  \<^verbatim>\<open>traceId = bucket.key\<close>, the first sub-bucket's key as the group,
  \<^verbatim>\<open>latency.value\<close>, \<^verbatim>\<open>error_count.doc_count\<close> and \<^verbatim>\<open>last_updated.value\<close>.
\<close>

theorem list_rows_follow_buckets:
  assumes "\<forall>b\<in>set (aggregations_traces_buckets r). trace_group_buckets b \<noteq> []"
  shows "\<exists>fr. createListTracesDataFrame (t # ts) (r # rs) uid name = Inr fr
           \<and> map Some (frame_rows fr) = map bucket_summary (aggregations_traces_buckets r)"
proof -
  let ?bs = "aggregations_traces_buckets r"
  have "map Some (frame_rows (empty_frame\<lparr> traceIds := map key ?bs,
              traceGroups := map first_group ?bs,
              latency := map latency_value ?bs,
              errors := map error_count_doc_count ?bs,
              lastUpdated := map last_updated_value ?bs,
              datasourceUid := Some uid, datasourceName := Some name,
              frame_key := map_of t ''refId'' \<rparr>)) = map bucket_summary ?bs"
    by (rule frame_rows_columns [OF assms]) simp_all
  then show ?thesis
    by (simp add: createListTracesDataFrame_def for_each_bucket_columns [OF assms]
        empty_frame_def)
qed

theorem list_rows_follow_buckets_witness:
  "\<exists>fr. createListTracesDataFrame [example_target] [\<lparr> aggregations_traces_buckets = [example_bucket] \<rparr>]
           ''uid'' ''OpenSearch'' = Inr fr
      \<and> map Some (frame_rows fr) =
          [Some \<lparr> traceId = ''abc'', traceGroup = ''checkout'', latencyMs = 42.5,
                  errorCount = 2, lastUpdatedAt = ''2024-01-01T00:00:00Z'' \<rparr>]"
proof -
  have h: "\<forall>b\<in>set (aggregations_traces_buckets \<lparr> aggregations_traces_buckets = [example_bucket] \<rparr>).
             trace_group_buckets b \<noteq> []"
    by (simp add: example_bucket_def)
  from list_rows_follow_buckets [OF h, of example_target "[]" "[]" "''uid''" "''OpenSearch''"]
  show ?thesis
    by (simp add: bucket_summary_def example_bucket_def)
qed

text \<open>
  C5, as the code has it. When a bucket of the first response has no \<^verbatim>\<open>trace_group\<close>
  sub-bucket, reading \<^verbatim>\<open>buckets[0].key\<close> throws the engine's \<^verbatim>\<open>TypeError\<close>: the
  call returns no frame at all, so no row and no default value. The error is not a
  \<open>MissingAggregationData\<close> of the program's own.
\<close>

theorem list_missing_group_throws:
  assumes "b \<in> set (aggregations_traces_buckets r)" and "trace_group_buckets b = []"
  shows "createListTracesDataFrame targets (r # rs) uid name = Inl TypeError"
  by (simp add: createListTracesDataFrame_def for_each_bucket_throws [OF assms])

theorem list_missing_group_throws_witness:
  "createListTracesDataFrame [example_target]
     [\<lparr> aggregations_traces_buckets =
          [example_bucket, example_bucket\<lparr> key := ''def'', trace_group_buckets := [] \<rparr>] \<rparr>]
     ''uid'' ''OpenSearch'' = Inl TypeError"
proof -
  let ?bad = "example_bucket\<lparr> key := ''def'', trace_group_buckets := [] \<rparr>"
  have m: "?bad \<in> set (aggregations_traces_buckets
             \<lparr> aggregations_traces_buckets = [example_bucket, ?bad] \<rparr>)"
    by simp
  have e: "trace_group_buckets ?bad = []" by simp
  from list_missing_group_throws [OF m e] show ?thesis .
qed

theorem list_missing_group_counterexample:
  "createListTracesDataFrame [example_target]
     [\<lparr> aggregations_traces_buckets =
          [example_bucket\<lparr> trace_group_buckets := [] \<rparr>] \<rparr>]
     ''uid'' ''OpenSearch'' = Inl TypeError
   \<and> createListTracesDataFrame [example_target]
     [\<lparr> aggregations_traces_buckets =
          [example_bucket\<lparr> trace_group_buckets := [] \<rparr>] \<rparr>]
     ''uid'' ''OpenSearch'' \<noteq> Inl MissingAggregationData"
  by (simp add: createListTracesDataFrame_def push_bucket_def)

text \<open>
  C10. Two response arrays with the same first element (or both empty) give the same
  result, in \<^verbatim>\<open>createListTracesDataFrame\<close> and in \<^verbatim>\<open>createTracesDataFrame\<close>.
\<close>

theorem list_reads_first_response_only:
  assumes "first_response rs1 = first_response rs2"
  shows "createListTracesDataFrame targets rs1 uid name
           = createListTracesDataFrame targets rs2 uid name
         \<and> createTracesDataFrame targets rs1 = createTracesDataFrame targets rs2"
  using assms
  by (cases rs1; cases rs2)
     (simp_all add: first_response_def createListTracesDataFrame_def
        createTracesDataFrame_def)

theorem list_reads_first_response_only_witness:
  "createListTracesDataFrame [example_target]
      [\<lparr> aggregations_traces_buckets = [example_bucket] \<rparr>,
       \<lparr> aggregations_traces_buckets = [example_bucket\<lparr> key := ''other'' \<rparr>] \<rparr>]
      ''uid'' ''OpenSearch''
     = createListTracesDataFrame [example_target]
      [\<lparr> aggregations_traces_buckets = [example_bucket] \<rparr>] ''uid'' ''OpenSearch''
   \<and> createTracesDataFrame [example_target]
      [\<lparr> aggregations_traces_buckets = [example_bucket] \<rparr>,
       \<lparr> aggregations_traces_buckets = [example_bucket\<lparr> key := ''other'' \<rparr>] \<rparr>]
     = createTracesDataFrame [example_target]
      [\<lparr> aggregations_traces_buckets = [example_bucket] \<rparr>]"
proof -
  have h: "first_response
      [\<lparr> aggregations_traces_buckets = [example_bucket] \<rparr>,
       \<lparr> aggregations_traces_buckets = [example_bucket\<lparr> key := ''other'' \<rparr>] \<rparr>]
     = first_response [\<lparr> aggregations_traces_buckets = [example_bucket] \<rparr>]"
    by (simp add: first_response_def)
  from list_reads_first_response_only [OF h] show ?thesis .
qed

section \<open>The query builders: what the queries hold\<close>

lemma map_of_obj_set: "map_of (obj_set ps k v) k' = (if k' = k then Some v else map_of ps k')"
  by (induction ps) auto

lemma query_at_obj_set:
  "query_at (obj_set ps k v) (k' # ks) =
     (if k' = k then json_at v ks else query_at ps (k' # ks))"
  by (simp add: query_at_def map_of_obj_set)

text \<open>
  C7. Whatever the base query holds, the query of \<^verbatim>\<open>createDefaultTraceQuery\<close> is in
  mode \<^verbatim>\<open>traces\<close> and its body has size 10; a \<^verbatim>\<open>must\<close> clause with the range of
  \<^verbatim>\<open>startTime\<close> from \<^verbatim>\<open>$timeFrom\<close> to \<^verbatim>\<open>$timeTo\<close>; the terms aggregation
  \<^verbatim>\<open>traces\<close> on \<^verbatim>\<open>traceId\<close>, size 100, ascending by key; under it \<^verbatim>\<open>latency\<close>, the
  maximum of the Painless script (whose text divides by 10000, rounds, divides by 100.0,
  and returns 0 for a missing field); \<^verbatim>\<open>trace_group\<close>, terms of size 1;
  \<^verbatim>\<open>error_count\<close>, the filter on \<^verbatim>\<open>traceGroupFields.statusCode\<close> equal to the string
  \<^verbatim>\<open>2\<close>; and \<^verbatim>\<open>last_updated\<close>, the maximum of \<^verbatim>\<open>traceGroupFields.endTime\<close>.
\<close>

theorem default_trace_query_shape:
  fixes query :: "('n::numeral) OpenSearchQuery"
  shows
    "query_at (createDefaultTraceQuery query) [''luceneQueryMode''] = Some (JStr ''traces'')
   \<and> query_at (createDefaultTraceQuery query) [''luceneQueryObj'', ''size''] = Some (JNum 10)
   \<and> query_at (createDefaultTraceQuery query) [''luceneQueryObj'', ''query'', ''bool'', ''must'']
       = Some (JArr [JObj [(''range'', JObj [(''startTime'',
           JObj [(''gte'', JStr ''$timeFrom''), (''lte'', JStr ''$timeTo'')])])]])
   \<and> query_at (createDefaultTraceQuery query) [''luceneQueryObj'', ''aggs'', ''traces'', ''terms'']
       = Some (JObj [(''field'', JStr ''traceId''), (''size'', JNum 100),
                     (''order'', JObj [(''_key'', JStr ''asc'')])])
   \<and> query_at (createDefaultTraceQuery query)
         [''luceneQueryObj'', ''aggs'', ''traces'', ''aggs'', ''latency'']
       = Some (JObj [(''max'', JObj [(''script'', JObj [
           (''source'', JStr
              (''\<newline>                if (doc.containsKey('traceGroupFields.durationInNanos') && !doc['traceGroupFields.durationInNanos'].empty) {''
               @ ''\<newline>                  return Math.round(doc['traceGroupFields.durationInNanos'].value / 10000) / 100.0''
               @ ''\<newline>                }''
               @ ''\<newline>                return 0''
               @ ''\<newline>                '')),
           (''lang'', JStr ''painless'')])])])
   \<and> query_at (createDefaultTraceQuery query)
         [''luceneQueryObj'', ''aggs'', ''traces'', ''aggs'', ''trace_group'']
       = Some (JObj [(''terms'', JObj [(''field'', JStr ''traceGroup''), (''size'', JNum 1)])])
   \<and> query_at (createDefaultTraceQuery query)
         [''luceneQueryObj'', ''aggs'', ''traces'', ''aggs'', ''error_count'']
       = Some (JObj [(''filter'', JObj [(''term'', JObj [
           (''traceGroupFields.statusCode'', JStr ''2'')])])])
   \<and> query_at (createDefaultTraceQuery query)
         [''luceneQueryObj'', ''aggs'', ''traces'', ''aggs'', ''last_updated'']
       = Some (JObj [(''max'', JObj [(''field'', JStr ''traceGroupFields.endTime'')])])"
  unfolding createDefaultTraceQuery_def
  by (simp add: query_at_obj_set default_trace_body_def time_range_def latency_script_def)

theorem default_trace_query_shape_witness:
  "query_at (createDefaultTraceQuery
       [(''refId'', JStr ''A''), (''luceneQueryObj'', JNull)] :: int OpenSearchQuery)
     [''luceneQueryObj'', ''size''] = Some (JNum 10)
   \<and> query_at (createDefaultTraceQuery
       [(''refId'', JStr ''A''), (''luceneQueryObj'', JNull)] :: int OpenSearchQuery)
     [''luceneQueryObj'', ''aggs'', ''traces'', ''aggs'', ''error_count'']
       = Some (JObj [(''filter'', JObj [(''term'', JObj [
           (''traceGroupFields.statusCode'', JStr ''2'')])])])"
  using default_trace_query_shape
    [of "[(''refId'', JStr ''A''), (''luceneQueryObj'', JNull)] :: int OpenSearchQuery"]
  by simp

text \<open>
  C6, as the code has it. \<^verbatim>\<open>createSingleTraceQuery\<close> takes the base query only. Its
  query is flagged \<^verbatim>\<open>isSingleTrace\<close>, its body has size 1000, and its \<^verbatim>\<open>must\<close> clauses
  are the range of \<^verbatim>\<open>startTime\<close> and the term \<^verbatim>\<open>traceId\<close> equal to the constant
  \<^verbatim>\<open>0000000000000000061141afde96cda8\<close> written in the source.
\<close>

theorem single_trace_query_shape:
  fixes query :: "('n::numeral) OpenSearchQuery"
  shows
    "query_at (createSingleTraceQuery query) [''isSingleTrace''] = Some (JBool True)
   \<and> query_at (createSingleTraceQuery query) [''luceneQueryMode''] = Some (JStr ''traces'')
   \<and> query_at (createSingleTraceQuery query) [''luceneQueryObj'', ''size''] = Some (JNum 1000)
   \<and> query_at (createSingleTraceQuery query) [''luceneQueryObj'', ''query'', ''bool'', ''must'']
       = Some (JArr [
           JObj [(''range'', JObj [(''startTime'',
             JObj [(''gte'', JStr ''$timeFrom''), (''lte'', JStr ''$timeTo'')])])],
           JObj [(''term'', JObj [(''traceId'', JStr ''0000000000000000061141afde96cda8'')])]])"
  unfolding createSingleTraceQuery_def
  by (simp add: query_at_obj_set single_trace_body_def time_range_def)

theorem single_trace_query_shape_witness:
  "query_at (createSingleTraceQuery
       [(''refId'', JStr ''A''), (''query'', JStr ''traceId: abc'')] :: int OpenSearchQuery)
     [''luceneQueryObj'', ''query'', ''bool'', ''must'']
       = Some (JArr [
           JObj [(''range'', JObj [(''startTime'',
             JObj [(''gte'', JStr ''$timeFrom''), (''lte'', JStr ''$timeTo'')])])],
           JObj [(''term'', JObj [(''traceId'', JStr ''0000000000000000061141afde96cda8'')])]])"
  using single_trace_query_shape
    [of "[(''refId'', JStr ''A''), (''query'', JStr ''traceId: abc'')] :: int OpenSearchQuery"]
  by simp

text \<open>
  A caller that asks for the trace \<^verbatim>\<open>abc\<close> gets a query for another trace: the term
  is not the one the caller's query names.
\<close>

theorem single_trace_query_counterexample:
  "query_at (createSingleTraceQuery
       [(''refId'', JStr ''A''), (''query'', JStr ''traceId: abc'')] :: int OpenSearchQuery)
     [''luceneQueryObj'', ''query'', ''bool'', ''must'']
     \<noteq> Some (JArr [
           JObj [(''range'', JObj [(''startTime'',
             JObj [(''gte'', JStr ''$timeFrom''), (''lte'', JStr ''$timeTo'')])])],
           JObj [(''term'', JObj [(''traceId'', JStr ''abc'')])]])"
  unfolding createSingleTraceQuery_def
  by (simp add: query_at_def map_of_obj_set single_trace_body_def time_range_def)

section \<open>Error events\<close>

lemma event_error_Inr: "event_error e = Inr v \<Longrightarrow> v = error_attribute e"
  by (auto simp: event_error_def get_prop_def error_attribute_def
      split: sum.splits option.splits json.splits)

lemma event_has_error_Inr: "event_has_error H e = Inr b \<Longrightarrow> b = has_truthy_error H e"
  by (auto simp: event_has_error_def has_truthy_error_def split: sum.splits
      dest: event_error_Inr)

lemma event_has_error_total:
  "event_has_attributes e \<Longrightarrow> event_has_error H e = Inr (has_truthy_error H e)"
  by (cases e)
     (auto simp: event_has_attributes_def event_has_error_def event_error_def get_prop_def
        has_truthy_error_def error_attribute_def split: option.splits json.splits)

lemma array_some_Inr:
  assumes "\<And>x b. f x = Inr b \<Longrightarrow> b = P x"
  shows "array_some f xs = Inr b \<Longrightarrow> b = (\<exists>x\<in>set xs. P x)"
proof (induction xs)
  case Nil
  then show ?case by simp
next
  case (Cons x xs)
  then show ?case
    using assms [of x] by (auto split: sum.splits if_splits)
qed

lemma array_some_total:
  "\<forall>x\<in>set xs. f x = Inr (P x) \<Longrightarrow> array_some f xs = Inr (\<exists>x\<in>set xs. P x)"
  by (induction xs) auto

lemma array_filter_Inr:
  assumes "\<And>x b. f x = Inr b \<Longrightarrow> b = P x"
  shows "array_filter f xs = Inr ys \<Longrightarrow> ys = filter P xs"
proof (induction xs arbitrary: ys)
  case Nil
  then show ?case by simp
next
  case (Cons x xs)
  then show ?case
    using assms [of x] by (auto split: sum.splits if_splits)
qed

lemma map_result_Inr:
  assumes "\<And>x y. f x = Inr y \<Longrightarrow> g x = Some y"
  shows "map_result f xs = Inr ys \<Longrightarrow> map Some ys = map g xs"
proof (induction xs arbitrary: ys)
  case Nil
  then show ?case by simp
next
  case (Cons x xs)
  then show ?case
    using assms [of x] by (auto split: sum.splits)
qed

lemma map_result_length: "map_result f xs = Inr ys \<Longrightarrow> length ys = length xs"
  by (induction xs arbitrary: ys) (auto split: sum.splits)

lemma spanHasError_Inr:
  "spanHasError H (Some (JArr evs)) = Inr b \<Longrightarrow> b = (\<exists>e\<in>set evs. has_truthy_error H e)"
  unfolding spanHasError_def
  by (simp, rule array_some_Inr [where f = "event_has_error H"])
     (auto dest: event_has_error_Inr)

text \<open>
  C8. \<^verbatim>\<open>spanHasError\<close> of the empty list is false. Whenever it returns, it returns
  whether some event has a truthy \<^verbatim>\<open>attributes.error\<close>; and it does return, with that
  answer, on every list of events that each have an attribute mapping.
\<close>

theorem span_has_error_iff:
  "spanHasError H (Some (JArr [])) = Inr False
   \<and> (\<forall>b. spanHasError H (Some (JArr evs)) = Inr b
          \<longrightarrow> b = (\<exists>e\<in>set evs. has_truthy_error H e))
   \<and> ((\<forall>e\<in>set evs. event_has_attributes e)
          \<longrightarrow> spanHasError H (Some (JArr evs)) = Inr (\<exists>e\<in>set evs. has_truthy_error H e))"
proof (intro conjI allI impI)
  show "spanHasError H (Some (JArr [])) = Inr False"
    by (simp add: spanHasError_def)
next
  fix b assume "spanHasError H (Some (JArr evs)) = Inr b"
  then show "b = (\<exists>e\<in>set evs. has_truthy_error H e)" by (rule spanHasError_Inr)
next
  assume "\<forall>e\<in>set evs. event_has_attributes e"
  then have "\<forall>e\<in>set evs. event_has_error H e = Inr (has_truthy_error H e)"
    by (simp add: event_has_error_total)
  then show "spanHasError H (Some (JArr evs)) = Inr (\<exists>e\<in>set evs. has_truthy_error H e)"
    by (simp add: spanHasError_def array_some_total)
qed

theorem span_has_error_iff_witness:
  "spanHasError example_host (Some (JArr [quiet_event, example_event])) = Inr True
   \<and> has_truthy_error example_host example_event
   \<and> \<not> has_truthy_error example_host quiet_event
   \<and> spanHasError example_host (Some (JArr [quiet_event])) = Inr False"
proof -
  have a: "\<forall>e\<in>set [quiet_event, example_event]. event_has_attributes e"
    by (simp add: event_has_attributes_def quiet_event_def example_event_def)
  have b: "\<forall>e\<in>set [quiet_event]. event_has_attributes e"
    by (simp add: event_has_attributes_def quiet_event_def)
  have t: "has_truthy_error example_host example_event"
    by (simp add: has_truthy_error_def error_attribute_def example_event_def)
  have q: "\<not> has_truthy_error example_host quiet_event"
    by (simp add: has_truthy_error_def error_attribute_def quiet_event_def)
  from span_has_error_iff [of example_host "[quiet_event, example_event]"] a t
  have "spanHasError example_host (Some (JArr [quiet_event, example_event])) = Inr True"
    by simp
  moreover from span_has_error_iff [of example_host "[quiet_event]"] b q
  have "spanHasError example_host (Some (JArr [quiet_event])) = Inr False"
    by simp
  ultimately show ?thesis using t q by simp
qed

section \<open>Span rows: stack traces and missing events\<close>

lemma stack_line_Inr: "stack_line H e = Inr s \<Longrightarrow> stack_text H e = Some s"
  by (auto simp: stack_line_def stack_text_def get_prop_def
      split: sum.splits option.splits json.splits dest!: event_error_Inr)

lemma getStackTraces_Inr:
  assumes "getStackTraces H (Some (JArr evs)) = Inr r"
  shows "(r = None) = (filter (has_truthy_error H) evs = [])"
    and "r \<noteq> Some []"
    and "r = Some xs \<Longrightarrow> map Some xs = map (stack_text H) (filter (has_truthy_error H) evs)"
proof -
  from assms obtain errs st where
    f: "array_filter (event_has_error H) evs = Inr errs" and
    m: "map_result (stack_line H) errs = Inr st" and
    r: "r = (if 0 < length st then Some st else None)"
    by (auto simp: getStackTraces_def split: sum.splits)
  have errs: "errs = filter (has_truthy_error H) evs"
    by (rule array_filter_Inr [OF _ f]) (rule event_has_error_Inr)
  have st: "map Some st = map (stack_text H) errs"
    by (rule map_result_Inr [OF _ m]) (rule stack_line_Inr)
  have len: "length st = length errs" by (rule map_result_length [OF m])
  show "(r = None) = (filter (has_truthy_error H) evs = [])"
    using r len errs by auto
  show "r \<noteq> Some []" using r by auto
  show "r = Some xs \<Longrightarrow> map Some xs = map (stack_text H) (filter (has_truthy_error H) evs)"
    using r st errs by (auto split: if_splits)
qed

lemma to_string_val_error:
  "to_string_val H v = Inl e \<Longrightarrow> e = TypeError"
  "join_vals H vs = Inl e \<Longrightarrow> e = TypeError"
  by (induction H v and H vs arbitrary: e and e rule: to_string_val_join_vals.induct)
     (auto split: if_splits sum.splits)

lemma to_string_error: "to_string H v = Inl e \<Longrightarrow> e = TypeError"
  by (auto simp: to_string_def split: option.splits dest: to_string_val_error)

lemma span_row_stack:
  assumes "span_row H nestedSpan = Inr row"
  shows "(stackTraces row \<noteq> None) = (\<exists>e\<in>set (span_events nestedSpan). has_truthy_error H e)
       \<and> stackTraces row \<noteq> Some None \<and> stackTraces row \<noteq> Some (Some [])
       \<and> (\<forall>xs. stackTraces row = Some (Some xs) \<longrightarrow>
             map Some xs
               = map (stack_text H) (filter (has_truthy_error H) (span_events nestedSpan)))"
proof -
  let ?events = "map_of nestedSpan ''events''"
  obtain hasError where
    h: "(if truthy H ?events then spanHasError H ?events else Inr False) = Inr hasError"
    using assms by (auto simp: span_row_def Let_def split: sum.splits)
  obtain stack where
    s: "(if hasError
         then (case getStackTraces H ?events of Inl e \<Rightarrow> Inl e | Inr st \<Rightarrow> Inr (Some st))
         else Inr None) = Inr stack"
    and row: "stackTraces row = stack"
    using assms h by (auto simp: span_row_def Let_def split: sum.splits)
  show ?thesis
  proof (cases "truthy H ?events")
    case False
    with h have "\<not> hasError" by simp
    with s row have none: "stackTraces row = None" by simp
    have "span_events nestedSpan = []"
      using False by (auto simp: span_events_def split: option.splits json.splits)
    with none show ?thesis by simp
  next
    case True
    with h have sh: "spanHasError H ?events = Inr hasError" by simp
    then obtain evs where evs: "?events = Some (JArr evs)"
      by (auto simp: spanHasError_def split: option.splits json.splits)
    then have se: "span_events nestedSpan = evs" by (simp add: span_events_def)
    from sh evs have he: "hasError = (\<exists>e\<in>set evs. has_truthy_error H e)"
      by (simp add: spanHasError_Inr)
    show ?thesis
    proof (cases hasError)
      case False
      with s row he se show ?thesis by simp
    next
      case True
      with s obtain r where g: "getStackTraces H (Some (JArr evs)) = Inr r"
        and st: "stack = Some r"
        by (auto simp: evs split: sum.splits)
      from he True have ne: "filter (has_truthy_error H) evs \<noteq> []"
        by (auto simp: filter_empty_conv)
      from getStackTraces_Inr [OF g] ne row st se he True show ?thesis
        by auto
    qed
  qed
qed

lemma converts_Inr: "converts H v \<Longrightarrow> \<exists>s. to_string H v = Inr s"
  by (auto simp: converts_def split: sum.splits)

lemma array_filter_total:
  "\<forall>x\<in>set xs. f x = Inr (P x) \<Longrightarrow> array_filter f xs = Inr (filter P xs)"
  by (induction xs) auto

lemma map_result_total:
  "\<forall>x\<in>set xs. \<exists>y. f x = Inr y \<Longrightarrow> \<exists>ys. map_result f xs = Inr ys"
  by (induction xs) auto

lemma event_error_total:
  "event_has_attributes e \<Longrightarrow> event_error e = Inr (error_attribute e)"
  by (cases e)
     (auto simp: event_has_attributes_def event_error_def get_prop_def error_attribute_def
        split: option.splits json.splits)

lemma stack_line_total:
  assumes "well_formed_event H e"
  shows "\<exists>s. stack_line H e = Inr s"
proof -
  from assms have a: "event_has_attributes e" and n: "converts H (own_prop e ''name'')"
    and r: "converts H (error_attribute e)"
    by (simp_all add: well_formed_event_def)
  from a have obj: "get_prop (Some e) ''name'' = Inr (own_prop e ''name'')"
    by (cases e) (auto simp: event_has_attributes_def get_prop_def)
  from converts_Inr [OF n] obtain s1 where s1: "to_string H (own_prop e ''name'') = Inr s1" ..
  from converts_Inr [OF r] obtain s2 where s2: "to_string H (error_attribute e) = Inr s2" ..
  show ?thesis
    by (simp add: stack_line_def obj s1 event_error_total [OF a] s2)
qed

lemma event_log_total:
  assumes "well_formed_event H e"
  shows "\<exists>l. event_log H e = Inr l"
proof -
  from assms have a: "event_has_attributes e" and t: "converts H (own_prop e ''time'')"
    by (simp_all add: well_formed_event_def)
  from a have obj: "\<And>k. get_prop (Some e) k = Inr (own_prop e k)"
    by (cases e) (auto simp: event_has_attributes_def get_prop_def)
  from converts_Inr [OF t] obtain s where "to_string H (own_prop e ''time'') = Inr s" ..
  then show ?thesis
    by (simp add: event_log_def obj date_ms_def)
qed

lemma span_row_total:
  assumes "well_formed_span H nestedSpan"
  shows "\<exists>row. span_row H nestedSpan = Inr row"
proof -
  from assms obtain evs where ev: "map_of nestedSpan ''events'' = Some (JArr evs)"
    and wf: "\<forall>e\<in>set evs. well_formed_event H e"
    and st: "converts H (map_of nestedSpan ''startTime'')"
    and du: "converts H (map_of nestedSpan ''durationInNanos'')"
    by (auto simp: well_formed_span_def list_all_iff split: option.splits json.splits)
  from wf have he: "\<forall>e\<in>set evs. event_has_error H e = Inr (has_truthy_error H e)"
    by (simp add: well_formed_event_def event_has_error_total)
  have sh: "spanHasError H (Some (JArr evs)) = Inr (\<exists>e\<in>set evs. has_truthy_error H e)"
    using he by (simp add: spanHasError_def array_some_total)
  have fl: "array_filter (event_has_error H) evs = Inr (filter (has_truthy_error H) evs)"
    using he by (rule array_filter_total)
  have "\<forall>e\<in>set (filter (has_truthy_error H) evs). \<exists>s. stack_line H e = Inr s"
    using wf by (simp add: stack_line_total)
  from map_result_total [OF this] obtain lines where
    ls: "map_result (stack_line H) (filter (has_truthy_error H) evs) = Inr lines" ..
  have gs: "\<exists>r. getStackTraces H (Some (JArr evs)) = Inr r"
    by (simp add: getStackTraces_def fl ls)
  have "\<forall>e\<in>set evs. \<exists>l. event_log H e = Inr l"
    using wf by (simp add: event_log_total)
  from map_result_total [OF this] obtain ll where
    lg: "transformEventsIntoLogs H (Some (JArr evs)) = Inr ll"
    by (auto simp: transformEventsIntoLogs_def)
  from converts_Inr [OF st] obtain s1 where "to_string H (map_of nestedSpan ''startTime'') = Inr s1" ..
  then have d1: "\<exists>x. date_ms H (map_of nestedSpan ''startTime'') = Inr x"
    by (simp add: date_ms_def)
  from converts_Inr [OF du] obtain s2 where
    "to_string H (map_of nestedSpan ''durationInNanos'') = Inr s2" ..
  then have d2: "\<exists>x. nanos_to_ms H (map_of nestedSpan ''durationInNanos'') = Inr x"
    by (simp add: nanos_to_ms_def)
  from gs d1 d2 show ?thesis
    unfolding span_row_def Let_def ev
    by (auto simp: sh lg)
qed

text \<open>
  C1. In every row the callback of \<^verbatim>\<open>transformTraceResponse\<close> returns, the key
  \<^verbatim>\<open>stackTraces\<close> is present exactly when some event of the nested span has a truthy
  \<^verbatim>\<open>attributes.error\<close>; it never holds \<^verbatim>\<open>undefined\<close> or an empty list; and when
  present it holds, in event order, the line \<^verbatim>\<open><event.name>: <event.attributes.error>\<close>
  of each such event. And the callback does return such a row on every well-formed
  nested span: absent without an error event, the list of those lines otherwise.
\<close>

theorem stack_traces_iff_error_event:
  assumes "nest_span (source hit) = Inr nestedSpan"
  shows "(\<forall>row. transformSpan H hit = Inr row \<longrightarrow>
            (stackTraces row \<noteq> None)
              = (\<exists>e\<in>set (span_events nestedSpan). has_truthy_error H e)
          \<and> stackTraces row \<noteq> Some None \<and> stackTraces row \<noteq> Some (Some [])
          \<and> (\<forall>xs. stackTraces row = Some (Some xs) \<longrightarrow>
                map Some xs
                  = map (stack_text H)
                      (filter (has_truthy_error H) (span_events nestedSpan))))
       \<and> (well_formed_span H nestedSpan \<longrightarrow>
            (\<exists>row xs. transformSpan H hit = Inr row
               \<and> map Some xs
                   = map (stack_text H) (filter (has_truthy_error H) (span_events nestedSpan))
               \<and> stackTraces row = (if xs = [] then None else Some (Some xs))))"
proof (rule conjI)
  show "\<forall>row. transformSpan H hit = Inr row \<longrightarrow>
            (stackTraces row \<noteq> None)
              = (\<exists>e\<in>set (span_events nestedSpan). has_truthy_error H e)
          \<and> stackTraces row \<noteq> Some None \<and> stackTraces row \<noteq> Some (Some [])
          \<and> (\<forall>xs. stackTraces row = Some (Some xs) \<longrightarrow>
                map Some xs
                  = map (stack_text H)
                      (filter (has_truthy_error H) (span_events nestedSpan)))"
  proof (intro allI impI)
    fix row assume "transformSpan H hit = Inr row"
    with assms have "span_row H nestedSpan = Inr row" by (simp add: transformSpan_def)
    then show "(stackTraces row \<noteq> None)
              = (\<exists>e\<in>set (span_events nestedSpan). has_truthy_error H e)
          \<and> stackTraces row \<noteq> Some None \<and> stackTraces row \<noteq> Some (Some [])
          \<and> (\<forall>xs. stackTraces row = Some (Some xs) \<longrightarrow>
                map Some xs
                  = map (stack_text H)
                      (filter (has_truthy_error H) (span_events nestedSpan)))"
      by (rule span_row_stack)
  qed
next
  let ?errs = "filter (has_truthy_error H) (span_events nestedSpan)"
  show "well_formed_span H nestedSpan \<longrightarrow>
          (\<exists>row xs. transformSpan H hit = Inr row
             \<and> map Some xs = map (stack_text H) ?errs
             \<and> stackTraces row = (if xs = [] then None else Some (Some xs)))"
  proof
    assume "well_formed_span H nestedSpan"
    then obtain row where r: "span_row H nestedSpan = Inr row"
      using span_row_total by blast
    with assms have t: "transformSpan H hit = Inr row" by (simp add: transformSpan_def)
    note s = span_row_stack [OF r]
    show "\<exists>row xs. transformSpan H hit = Inr row
            \<and> map Some xs = map (stack_text H) ?errs
            \<and> stackTraces row = (if xs = [] then None else Some (Some xs))"
    proof (cases "stackTraces row")
      case None
      with s have "?errs = []" by (auto simp: filter_empty_conv)
      with t None show ?thesis by (intro exI [of _ row] exI [of _ "[]"]) simp
    next
      case (Some st)
      with s obtain xs where xs: "st = Some xs" "xs \<noteq> []" by (cases st) auto
      with s Some have "map Some xs = map (stack_text H) ?errs" by simp
      with t Some xs show ?thesis by (intro exI [of _ row] exI [of _ xs]) simp
    qed
  qed
qed

lemmas path_eval =
  ordered_keys_def array_index_def uint_of_def digit_val_def List.map_filter_def
  castPath_def isKey_def is_plain_prop_def word_char_def deep_prop_here_def
  stringToPath_def path_keys.simps path_char_def empty_key_here_def after_separator_def
  bracket_token_def bracket_number_def bracket_quoted_def is_digit_def
  unsafe_key_def inherited_key_def step_value_def isIndex_def arr_set_def arr_get_def
  lodash_set_def nest_span_def

lemma example_span_nested:
  "nest_span (source example_span) =
     Inr [(''traceId'', JStr ''abc''),
          (''span'', JObj [(''attributes'', JObj [(''http@status_code'', JNum 200)])]),
          (''events'', JArr [quiet_event, example_event])]"
  by (simp add: example_span_def path_eval)

theorem stack_traces_iff_error_event_witness:
  "\<exists>row. transformSpan example_host example_span = Inr row
      \<and> stackTraces row = Some (Some [''exception: boom''])"
proof -
  let ?ns = "[(''traceId'', JStr ''abc''),
          (''span'', JObj [(''attributes'', JObj [(''http@status_code'', JNum 200)])]),
          (''events'', JArr [quiet_event, example_event])]"
  have wf: "well_formed_span example_host ?ns"
    by (simp add: well_formed_span_def well_formed_event_def event_has_attributes_def
        converts_def to_string_def error_attribute_def quiet_event_def example_event_def)
  have errs: "map (stack_text example_host)
                (filter (has_truthy_error example_host) (span_events ?ns))
              = [Some ''exception: boom'']"
    by (simp add: span_events_def has_truthy_error_def error_attribute_def stack_text_def
        to_string_def quiet_event_def example_event_def)
  from stack_traces_iff_error_event [OF example_span_nested, of example_host] wf
  obtain row xs where "transformSpan example_host example_span = Inr row"
    and "map Some xs = map (stack_text example_host)
           (filter (has_truthy_error example_host) (span_events ?ns))"
    and "stackTraces row = (if xs = [] then None else Some (Some xs))"
    by blast
  with errs show ?thesis by (intro exI [of _ row]) auto
qed

text \<open>
  C2, on the code. A document whose nested form has no \<^verbatim>\<open>events\<close> makes the callback
  throw: \<^verbatim>\<open>hasError\<close> is guarded and becomes false, but \<^verbatim>\<open>nestedSpan.events.length\<close>
  reads a property of \<^verbatim>\<open>undefined\<close>. No row is produced.
\<close>

theorem absent_events_throws:
  assumes "nest_span (source hit) = Inr nestedSpan"
    and "map_of nestedSpan ''events'' = None"
  shows "transformSpan H hit = Inl TypeError"
  using assms
  by (auto simp: transformSpan_def span_row_def date_ms_def nanos_to_ms_def
      split: sum.splits dest: to_string_error)

theorem absent_events_throws_witness:
  "transformSpan example_host
     \<lparr> source = [(''traceId'', JStr ''abc''), (''spanId'', JStr ''s1''),
                 (''startTime'', JStr ''2024-01-01T00:00:00Z''),
                 (''durationInNanos'', JNum 1000000)] \<rparr> = Inl TypeError"
proof -
  have n: "nest_span (source \<lparr> source = [(''traceId'', JStr ''abc''), (''spanId'', JStr ''s1''),
                 (''startTime'', JStr ''2024-01-01T00:00:00Z''),
                 (''durationInNanos'', JNum (1000000 :: int))] \<rparr>)
           = Inr [(''traceId'', JStr ''abc''), (''spanId'', JStr ''s1''),
                 (''startTime'', JStr ''2024-01-01T00:00:00Z''),
                 (''durationInNanos'', JNum 1000000)]"
    by (simp add: path_eval)
  have e: "map_of [(''traceId'', JStr ''abc''), (''spanId'', JStr ''s1''),
                 (''startTime'', JStr ''2024-01-01T00:00:00Z''),
                 (''durationInNanos'', JNum (1000000 :: int))] ''events'' = None"
    by simp
  from absent_events_throws [OF n e] show ?thesis .
qed


section \<open>Normalization: paths, conflicts and flat documents\<close>







lemma lodash_set_plain:
  "\<not> is_deep_prop k \<Longrightarrow> \<not> unsafe_key k \<Longrightarrow> lodash_set object k v = Inr (obj_set object k v)"
  by (simp add: lodash_set_def castPath_def isKey_def)








lemma set_map_filter:
  "set (List.map_filter f xs) = {y. \<exists>x\<in>set xs. f x = Some y}"
  by (induction xs) (auto split: option.splits)

lemma set_ordered_keys: "set (ordered_keys ks) = set ks"
proof -
  let ?f = "\<lambda>k. case array_index k of None \<Rightarrow> None | Some i \<Rightarrow> Some (i, k)"
  have "snd ` set (List.map_filter ?f ks) = {k \<in> set ks. array_index k \<noteq> None}"
    unfolding set_map_filter by (force split: option.splits)
  then show ?thesis unfolding ordered_keys_def by auto
qed

lemma own_entries_agree:
  "(k, v) \<in> set (own_entries (JObj ps)) \<Longrightarrow> map_of ps k = Some v"
  unfolding own_entries.simps set_map_filter by (auto split: option.splits)


















lemma set_entries_flat:
  "\<forall>k\<in>set (map fst es). flat_key k \<Longrightarrow> set_entries object es = Inr (assign_all object es)"
proof (induction es arbitrary: object)
  case Nil
  then show ?case by (simp add: assign_all_def)
next
  case (Cons e es)
  obtain k v where e: "e = (k, v)" by (cases e)
  with Cons.prems have "flat_key k" by simp
  then have "lodash_set object k v = Inr (obj_set object k v)"
    by (simp add: flat_key_def lodash_set_plain)
  with Cons e show ?case by (simp add: assign_all_def)
qed

lemma map_of_assign_all:
  "map_of (assign_all object es) k =
     (case map_of (rev es) k of None \<Rightarrow> map_of object k | Some v \<Rightarrow> Some v)"
proof (induction es arbitrary: object)
  case Nil
  then show ?case by (simp add: assign_all_def)
next
  case (Cons e es)
  obtain k' v' where e: "e = (k', v')" by (cases e)
  have "assign_all object (e # es) = assign_all (obj_set object k' v') es"
    by (simp add: assign_all_def e)
  then show ?case
    by (auto simp: Cons.IH e map_of_obj_set map_of_append split: option.splits)
qed

lemma own_entries_keys: "set (map fst (own_entries (JObj ps))) = set (map fst ps)"
proof
  show "set (map fst (own_entries (JObj ps))) \<subseteq> set (map fst ps)"
    unfolding own_entries.simps set_map set_map_filter set_ordered_keys
    by (force split: option.splits)
next
  show "set (map fst ps) \<subseteq> set (map fst (own_entries (JObj ps)))"
  proof
    fix k assume k: "k \<in> set (map fst ps)"
    then obtain v where "map_of ps k = Some v"
      by (cases "map_of ps k") (auto simp: map_of_eq_None_iff)
    with k have "(k, v) \<in> set (own_entries (JObj ps))"
      unfolding own_entries.simps set_map_filter set_ordered_keys by force
    then show "k \<in> set (map fst (own_entries (JObj ps)))" by force
  qed
qed

lemma map_of_agreeing:
  assumes "\<forall>(k, v)\<in>set es. m k = Some v"
  shows "map_of es k = (if k \<in> set (map fst es) then m k else None)"
  using assms by (induction es) auto

lemma own_entries_in_order:
  assumes "distinct (map fst ps)" "ordered_keys (map fst ps) = map fst ps"
  shows "own_entries (JObj ps) = ps"
proof -
  let ?f = "\<lambda>k. case map_of ps k of None \<Rightarrow> None | Some v \<Rightarrow> Some (k, v)"
  have "List.map_filter ?f (map fst qs) = qs" if "set qs \<subseteq> set ps" for qs
    using that
  proof (induction qs)
    case Nil
    then show ?case by simp
  next
    case (Cons q qs)
    obtain k v where q: "q = (k, v)" by (cases q)
    with Cons.prems have "(k, v) \<in> set ps" by simp
    with assms(1) have "map_of ps k = Some v" by (rule map_of_is_SomeI)
    with Cons q show ?case by simp
  qed
  from this [of ps] assms(2) show ?thesis by simp
qed

lemma obj_set_fresh: "k \<notin> set (map fst ps) \<Longrightarrow> obj_set ps k v = ps @ [(k, v)]"
  by (induction ps) auto

lemma assign_all_distinct:
  "distinct (map fst es) \<Longrightarrow> set (map fst object) \<inter> set (map fst es) = {}
     \<Longrightarrow> assign_all object es = object @ es"
proof (induction es arbitrary: object)
  case Nil
  then show ?case by (simp add: assign_all_def)
next
  case (Cons e es)
  obtain k v where e: "e = (k, v)" by (cases e)
  from Cons.prems e have fresh: "k \<notin> set (map fst object)" by auto
  have "assign_all object (e # es) = assign_all (object @ [(k, v)]) es"
    by (simp add: assign_all_def e obj_set_fresh [OF fresh])
  also have "\<dots> = (object @ [(k, v)]) @ es"
    using Cons.prems e by (intro Cons.IH) auto
  finally show ?case by (simp add: e)
qed

text \<open>
  C9, as the code has it. When no key of the document is a path for \<^verbatim>\<open>lodash.set\<close>
  (no dot and no bracket pair) and none is \<^verbatim>\<open>__proto__\<close>, \<^verbatim>\<open>constructor\<close> or
  \<^verbatim>\<open>prototype\<close>, normalization returns an object that maps every key to the value the
  document maps it to; it is the document itself, entry for entry, when the document
  lists distinct keys in the order of \<^verbatim>\<open>Object.keys\<close>.
\<close>

theorem flat_document_unchanged:
  assumes "\<forall>k\<in>set (map fst spanData). flat_key k"
  shows "\<exists>nestedSpan. nest_span spanData = Inr nestedSpan
           \<and> map_of nestedSpan = map_of spanData
           \<and> (distinct (map fst spanData) \<and> ordered_keys (map fst spanData) = map fst spanData
                \<longrightarrow> nestedSpan = spanData)"
proof -
  let ?es = "own_entries (JObj spanData)"
  have keys: "set (map fst ?es) = set (map fst spanData)" by (rule own_entries_keys)
  with assms have "\<forall>k\<in>set (map fst ?es). flat_key k" by simp
  then have n: "nest_span spanData = Inr (assign_all [] ?es)"
    by (simp add: nest_span_def set_entries_flat)
  have agree: "\<forall>(k, v)\<in>set (rev ?es). map_of spanData k = Some v"
    using own_entries_agree [of _ _ spanData] by (auto simp del: own_entries.simps)
  have m: "map_of (assign_all [] ?es) k = map_of spanData k" for k
  proof (cases "k \<in> set (map fst spanData)")
    case True
    then obtain v where v: "map_of spanData k = Some v"
      by (cases "map_of spanData k") (auto simp: map_of_eq_None_iff)
    from True keys have "k \<in> set (map fst (rev ?es))" by simp
    with map_of_agreeing [OF agree, of k] v have "map_of (rev ?es) k = Some v" by simp
    with v show ?thesis by (simp add: map_of_assign_all)
  next
    case False
    then have none: "map_of spanData k = None" by (simp add: map_of_eq_None_iff)
    from False keys have "k \<notin> set (map fst (rev ?es))" by simp
    with map_of_agreeing [OF agree, of k] have "map_of (rev ?es) k = None" by simp
    with none show ?thesis by (simp add: map_of_assign_all)
  qed
  have same: "assign_all [] ?es = spanData"
    if "distinct (map fst spanData)" "ordered_keys (map fst spanData) = map fst spanData"
  proof -
    from that have "?es = spanData" by (rule own_entries_in_order)
    with that(1) show ?thesis by (simp only: assign_all_distinct [of spanData "[]", simplified])
  qed
  from n m same show ?thesis by auto
qed

theorem flat_document_unchanged_witness:
  "nest_span [(''traceId'', JStr ''abc''), (''http@status_code'', JNum (200 :: int)),
              (''events'', JArr [])]
     = Inr [(''traceId'', JStr ''abc''), (''http@status_code'', JNum 200),
            (''events'', JArr [])]"
proof -
  let ?d = "[(''traceId'', JStr ''abc''), (''http@status_code'', JNum (200 :: int)),
             (''events'', JArr [])]"
  have h: "\<forall>k\<in>set (map fst ?d). flat_key k"
    by (simp add: flat_key_def deep_prop_here_def unsafe_key_def)
  have d: "distinct (map fst ?d)" by simp
  have o: "ordered_keys (map fst ?d) = map fst ?d"
    by (simp add: ordered_keys_def array_index_def uint_of_def digit_val_def)
  from flat_document_unchanged [OF h] d o show ?thesis by auto
qed

theorem flat_document_counterexample:
  "nest_span [(''events[0]'', JStr ''started'' :: int json)]
     = Inr [(''events'', JArr [JStr ''started''])]
   \<and> nest_span [(''events[0]'', JStr ''started'' :: int json)]
     \<noteq> Inr [(''events[0]'', JStr ''started'')]"
  by (simp add: path_eval)

end
